theory Spec2Isabelle
  imports Main "HOL-Library.Sublist"
begin

section \<open>Python values used by the controller\<close>

text \<open>
  The controller is the class \<open>WrappedGrok\<close> of \<open>wrapped_grok.py\<close>. Its strings are
  Python \<open>str\<close> values; here a \<open>string\<close> holds one \<open>char\<close> per code point, which covers
  the code points below 256. The character classes follow Python on that range:
  \<open>str.isspace\<close> (also the whitespace of \<open>str.split()\<close>, \<open>str.strip()\<close> and of \<open>\s\<close> in a
  regular expression) and \<open>str.lower\<close>.
\<close>

definition isspace :: "char \<Rightarrow> bool" where
  "isspace c = (let n = (of_char c :: nat) in
     (9 \<le> n \<and> n \<le> 13) \<or> (28 \<le> n \<and> n \<le> 32) \<or> n = 133 \<or> n = 160)"

definition lower_char :: "char \<Rightarrow> char" where
  "lower_char c = (let n = (of_char c :: nat) in
     if (65 \<le> n \<and> n \<le> 90) \<or> (192 \<le> n \<and> n \<le> 222 \<and> n \<noteq> 215)
     then char_of (n + 32) else c)"

definition py_lower :: "string \<Rightarrow> string" where
  "py_lower s = map lower_char s"

text \<open>\<open>s.split()\<close>: the maximal runs of characters that are not whitespace.\<close>

fun split_from :: "string \<Rightarrow> string \<Rightarrow> string list" where
  "split_from cur [] = (if cur = [] then [] else [cur])"
| "split_from cur (c # cs) =
     (if isspace c then (if cur = [] then split_from [] cs else cur # split_from [] cs)
      else split_from (cur @ [c]) cs)"

definition py_split :: "string \<Rightarrow> string list" where
  "py_split s = split_from [] s"

text \<open>\<open>sep.join(ws)\<close>.\<close>

fun py_join :: "string \<Rightarrow> string list \<Rightarrow> string" where
  "py_join sep [] = []"
| "py_join sep [w] = w"
| "py_join sep (w # v # ws) = w @ sep @ py_join sep (v # ws)"

text \<open>\<open>sub in s\<close> on strings: \<open>sub\<close> occurs in \<open>s\<close> as a contiguous piece.\<close>

fun py_in :: "string \<Rightarrow> string \<Rightarrow> bool" where
  "py_in sub [] = (sub = [])"
| "py_in sub (c # cs) = (prefix sub (c # cs) \<or> py_in sub cs)"

text \<open>\<open>s.strip()\<close>.\<close>

definition py_strip :: "string \<Rightarrow> string" where
  "py_strip s = rev (dropWhile isspace (rev (dropWhile isspace s)))"

text \<open>\<open>str(n)\<close> for a number that is not negative, as the f-strings print it.\<close>

fun str_nat :: "nat \<Rightarrow> string" where
  "str_nat n = (if n < 10 then [char_of (48 + n)]
                else str_nat (n div 10) @ [char_of (48 + n mod 10)])"

text \<open>
  The slice \<open>xs[:n]\<close> for a Python integer \<open>n\<close>: a negative \<open>n\<close> counts from the end.
\<close>

definition py_slice_to :: "'a list \<Rightarrow> int \<Rightarrow> 'a list" where
  "py_slice_to xs n = (if 0 \<le> n then take (nat n) xs else take (length xs - nat (- n)) xs)"

text \<open>
  The exceptions the controller tells apart, by the \<open>except\<close> clause that catches them in
  \<open>_query_grok\<close>: \<open>requests.exceptions.ConnectionError\<close>, \<open>Timeout\<close>, any other
  \<open>RequestException\<close>, and any other \<open>Exception\<close> (with its type name). Each carries
  \<open>str(e)\<close>.
\<close>

datatype exc =
    ConnectionError string
  | Timeout string
  | RequestException string
  | OtherException string string

abbreviation IndexError :: exc where
  "IndexError \<equiv> OtherException ''IndexError'' ''index out of range''"

text \<open>\<open>xs[i]\<close> for a Python integer \<open>i\<close> (from the end when negative); out of range it raises.\<close>

definition py_index :: "'a list \<Rightarrow> int \<Rightarrow> exc + 'a" where
  "py_index xs i =
     (if 0 \<le> i \<and> i < int (length xs) then Inr (xs ! nat i)
      else if i < 0 \<and> - i \<le> int (length xs) then Inr (xs ! (length xs - nat (- i)))
      else Inl IndexError)"

text \<open>\<open>range(start, stop, -1)\<close>: \<open>start, start - 1, ...\<close> down to \<open>stop + 1\<close>.\<close>

fun count_down :: "int \<Rightarrow> nat \<Rightarrow> int list" where
  "count_down start 0 = []"
| "count_down start (Suc k) = start # count_down (start - 1) k"

definition py_range_down :: "int \<Rightarrow> int \<Rightarrow> int list" where
  "py_range_down start stop = count_down start (nat (start - stop))"

section \<open>The controller and its violation log\<close>

text \<open>
  A violation is the dictionary \<open>{'timestamp': time.time(), 'message': message}\<close>. The
  clock is read from the field \<open>now\<close>, which stands for what \<open>time.time()\<close> returns.
\<close>

record violation =
  timestamp :: nat
  message :: string

record controller =
  grok_api_key :: string
  grok_api_url :: string
  serpapi_key :: string
  max_response_words :: int
  explain_keyword :: string
  use_elevenlabs :: bool
  elevenlabs_available :: bool
  speaking :: bool
  interrupt_speech :: bool
  background_listener_stop :: bool
  is_listening :: bool
  violations :: "violation list"
  now :: nat

definition log_violation :: "string \<Rightarrow> controller \<Rightarrow> controller" where
  "log_violation msg s =
     s\<lparr>violations := violations s @ [\<lparr>timestamp = now s, message = msg\<rparr>]\<rparr>"

text \<open>
  \<open>__init__\<close>, as far as it sets the fields above. The arguments \<open>el_key\<close> and \<open>el_import\<close>
  say whether an ElevenLabs key was given and whether importing the package worked;
  \<open>audio\<close> says whether the audio device could be set up, without which the constructor
  raises \<open>RuntimeError\<close>.
\<close>

definition init ::
  "string \<Rightarrow> string \<Rightarrow> int \<Rightarrow> string \<Rightarrow> bool \<Rightarrow> bool \<Rightarrow> bool \<Rightarrow> bool \<Rightarrow> nat
    \<Rightarrow> exc + controller" where
  "init api_key serp_key max_words keyword el_key use_el el_import audio t =
     (if audio then
        Inr \<lparr>grok_api_key = api_key,
             grok_api_url = ''https://api.x.ai/v1/chat/completions'',
             serpapi_key = serp_key,
             max_response_words = max_words,
             explain_keyword = py_lower keyword,
             use_elevenlabs = (use_el \<and> el_key \<and> el_import),
             elevenlabs_available = (use_el \<and> el_key \<and> el_import),
             speaking = False,
             interrupt_speech = False,
             background_listener_stop = False,
             is_listening = False,
             violations = [],
             now = t\<rparr>
      else Inl (OtherException ''RuntimeError'' ''Audio support is required for voice chat''))"

section \<open>Response Shaper: \<open>_limit_response_length\<close>\<close>

text \<open>\<open>w[-1] in '.!?'\<close>; on the empty string the index raises.\<close>

definition ends_sentence :: "string \<Rightarrow> exc + bool" where
  "ends_sentence w = (case w of [] \<Rightarrow> Inl IndexError | _ \<Rightarrow> Inr (last w \<in> set ''.!?''))"

text \<open>
  The backward scan \<open>for i in range(..., ..., -1)\<close>: the first index whose word ends a
  sentence, if any.
\<close>

fun find_boundary :: "string list \<Rightarrow> int list \<Rightarrow> exc + int option" where
  "find_boundary words [] = Inr None"
| "find_boundary words (i # rest) =
     (case py_index words i of
        Inl e \<Rightarrow> Inl e
      | Inr w \<Rightarrow>
          (case ends_sentence w of
             Inl e \<Rightarrow> Inl e
           | Inr b \<Rightarrow> if b then Inr (Some i) else find_boundary words rest))"

definition truncation_logged :: "nat \<Rightarrow> string \<Rightarrow> controller \<Rightarrow> (exc + string) \<times> controller" where
  "truncation_logged n_words truncated s =
     (Inr truncated,
      log_violation (''Response truncated: '' @ str_nat n_words @ '' words -> ''
                       @ str_nat (length (py_split truncated)) @ '' words'') s)"

definition limit_response_length ::
  "string \<Rightarrow> string \<Rightarrow> controller \<Rightarrow> (exc + string) \<times> controller" where
  "limit_response_length response user_input s =
     (let user_input_lower = py_lower user_input in
      if py_in (explain_keyword s) user_input_lower then (Inr response, s)
      else
        let words = py_split response; n = max_response_words s in
        if int (length words) > n then
          let truncated_words = py_slice_to words n;
              original_truncated = py_join '' '' truncated_words
          in (case find_boundary words
                     (py_range_down (min n (int (length words)) - 1) (max 0 (n - 5))) of
                Inl e \<Rightarrow> (Inl e, s)
              | Inr found \<Rightarrow>
                  let truncated =
                        (case found of
                           None \<Rightarrow> original_truncated
                         | Some i \<Rightarrow> py_join '' '' (py_slice_to words (i + 1)))
                  in if int (length (py_split truncated)) > n then
                       (case ends_sentence original_truncated of
                          Inl e \<Rightarrow> (Inl e, s)
                        | Inr b \<Rightarrow>
                            truncation_logged (length words)
                              (if b then original_truncated else original_truncated @ ''...'') s)
                     else truncation_logged (length words) truncated s)
        else (Inr response, s))"

section \<open>Context Augmenter: \<open>_extract_factual_claims\<close> and \<open>_search_web\<close>\<close>

text \<open>
  The regular expressions of \<open>_extract_factual_claims\<close>, by hand. \<open>is_word\<close> is \<open>\w\<close>
  (alphanumeric or underscore) and \<open>is_digit\<close> is \<open>\d\<close> on the code points below 256.
\<close>

definition is_digit :: "char \<Rightarrow> bool" where
  "is_digit c = (let n = (of_char c :: nat) in 48 \<le> n \<and> n \<le> 57)"

definition is_word :: "char \<Rightarrow> bool" where
  "is_word c = (let n = (of_char c :: nat) in
     (48 \<le> n \<and> n \<le> 57) \<or> (65 \<le> n \<and> n \<le> 90) \<or> n = 95 \<or> (97 \<le> n \<and> n \<le> 122)
     \<or> n = 170 \<or> n = 178 \<or> n = 179 \<or> n = 181 \<or> n = 185 \<or> n = 186
     \<or> (188 \<le> n \<and> n \<le> 190) \<or> (192 \<le> n \<and> n \<le> 214) \<or> (216 \<le> n \<and> n \<le> 246)
     \<or> 248 \<le> n)"

definition word_start :: "string \<Rightarrow> bool" where
  "word_start s = (case s of [] \<Rightarrow> False | c # _ \<Rightarrow> is_word c)"

text \<open>
  \<open>\b\<close> at a position: exactly one of the character before (\<open>prev\<close> says whether it is a
  word character; False at the start) and the character after is a word character.
\<close>

definition word_boundary :: "bool \<Rightarrow> string \<Rightarrow> bool" where
  "word_boundary prev s = (prev \<noteq> word_start s)"

text \<open>A literal of the pattern under \<open>re.IGNORECASE\<close>, matched at the start of \<open>s\<close>.\<close>

definition ci_prefix :: "string \<Rightarrow> string \<Rightarrow> bool" where
  "ci_prefix lit s = (py_lower (take (length lit) s) = lit)"

text \<open>\<open>\b\d{4}\b\<close> at the start of \<open>s\<close>.\<close>

definition year_here :: "bool \<Rightarrow> string \<Rightarrow> bool" where
  "year_here prev s =
     (word_boundary prev s \<and>
      (case s of
         a # b # c # d # rest \<Rightarrow>
           is_digit a \<and> is_digit b \<and> is_digit c \<and> is_digit d \<and> word_boundary True rest
       | _ \<Rightarrow> False))"

text \<open>\<open>\s+\w+\<close> at the start of \<open>s\<close>.\<close>

definition spaces_then_word :: "string \<Rightarrow> bool" where
  "spaces_then_word s =
     (case s of [] \<Rightarrow> False | c # cs \<Rightarrow> isspace c \<and> word_start (dropWhile isspace cs))"

text \<open>\<open>\b(is|was|are|were)\s+\w+\<close> at the start of \<open>s\<close>.\<close>

definition copula_here :: "bool \<Rightarrow> string \<Rightarrow> bool" where
  "copula_here prev s =
     (word_boundary prev s \<and>
      list_ex (\<lambda>v. ci_prefix v s \<and> spaces_then_word (drop (length v) s))
        [''is'', ''was'', ''are'', ''were''])"

text \<open>\<open>\b(according to|studies show|research indicates)\<close> at the start of \<open>s\<close>.\<close>

definition citation_here :: "bool \<Rightarrow> string \<Rightarrow> bool" where
  "citation_here prev s =
     (word_boundary prev s \<and>
      list_ex (\<lambda>p. ci_prefix p s) [''according to'', ''studies show'', ''research indicates''])"

text \<open>\<open>\b(percent|percentage|\%)\<close> at the start of \<open>s\<close>.\<close>

definition percent_here :: "bool \<Rightarrow> string \<Rightarrow> bool" where
  "percent_here prev s =
     (word_boundary prev s \<and>
      list_ex (\<lambda>p. ci_prefix p s) [''percent'', ''percentage'', ''%''])"

text \<open>\<open>re.search\<close>: the pattern matches at some position of the string.\<close>

fun search_from :: "(bool \<Rightarrow> string \<Rightarrow> bool) \<Rightarrow> bool \<Rightarrow> string \<Rightarrow> bool" where
  "search_from m prev [] = m prev []"
| "search_from m prev (c # cs) = (m prev (c # cs) \<or> search_from m (is_word c) cs)"

definition re_search :: "(bool \<Rightarrow> string \<Rightarrow> bool) \<Rightarrow> string \<Rightarrow> bool" where
  "re_search m s = search_from m False s"

definition patterns :: "(bool \<Rightarrow> string \<Rightarrow> bool) list" where
  "patterns = [year_here, copula_here, citation_here, percent_here]"

text \<open>
  \<open>re.split(r'[.!?]+', text)\<close>: the pieces between the maximal runs of \<open>.\<close>, \<open>!\<close> and
  \<open>?\<close>; \<open>in_run\<close> says that the character before was one of them.
\<close>

fun resplit_from :: "string \<Rightarrow> bool \<Rightarrow> string \<Rightarrow> string list" where
  "resplit_from cur in_run [] = [cur]"
| "resplit_from cur in_run (c # cs) =
     (if c \<in> set ''.!?'' then
        (if in_run then resplit_from [] True cs else cur # resplit_from [] True cs)
      else resplit_from (cur @ [c]) False cs)"

definition re_split_sentences :: "string \<Rightarrow> string list" where
  "re_split_sentences s = resplit_from [] False s"

text \<open>
  The two loops of \<open>_extract_factual_claims\<close>: a sentence is kept, stripped, as soon as
  one pattern is found in it.
\<close>

definition extract_factual_claims :: "string \<Rightarrow> string list" where
  "extract_factual_claims txt =
     map py_strip
       (filter (\<lambda>sentence. list_ex (\<lambda>pattern. re_search pattern sentence) patterns)
          (re_split_sentences txt))"

text \<open>
  What \<open>search.get_dict()\<close> returns, as far as \<open>_search_web\<close> reads it: the entry
  \<open>answer_box\<close> and the entry \<open>organic_results\<close>, each absent (\<open>None\<close>) or present. A
  dictionary of strings is an association list; \<open>d.get(k, "")\<close> is \<open>dict_get\<close>.
\<close>

type_synonym pydict = "(string \<times> string) list"

definition dict_get :: "pydict \<Rightarrow> string \<Rightarrow> string" where
  "dict_get d k = (case map_of d k of None \<Rightarrow> [] | Some v \<Rightarrow> v)"

record search_results =
  answer_box :: "pydict option"
  organic_results :: "pydict list option"

text \<open>
  The calls the controller makes to its collaborators, in the order it makes them: a
  search with its query, a completion request with its model identifier.
\<close>

datatype call = SearchCall string | CompletionCall string

text \<open>The part \<open>"Direct answer: ..."\<close> of the context, when the answer box gives one.\<close>

definition answer_parts :: "search_results \<Rightarrow> string list" where
  "answer_parts results =
     (case answer_box results of
        None \<Rightarrow> []
      | Some box \<Rightarrow>
          if box = [] then []
          else
            let answer = (if dict_get box ''answer'' = [] then dict_get box ''snippet''
                          else dict_get box ''answer'')
            in if answer = [] then [] else [''Direct answer: '' @ answer])"

text \<open>The loop over \<open>results["organic_results"][:3]\<close>.\<close>

fun organic_parts :: "pydict list \<Rightarrow> string list" where
  "organic_parts [] = []"
| "organic_parts (result # rest) =
     (let title = dict_get result ''title''; snippet = dict_get result ''snippet''
      in if snippet = [] then organic_parts rest
         else (title @ '': '' @ snippet) # organic_parts rest)"

definition build_context :: "search_results \<Rightarrow> string option" where
  "build_context results =
     (let context_parts = answer_parts results in
      case organic_results results of
        None \<Rightarrow> None
      | Some organic \<Rightarrow>
          if 0 < length organic then
            (let context_parts = context_parts @ organic_parts (take 3 organic)
             in if context_parts = [] then None
                else Some (py_join '' | '' context_parts))
          else None)"

text \<open>
  \<open>_search_web\<close>. The collaborator is \<open>serpapi\<close>: \<open>None\<close> when the module-level import of
  \<open>GoogleSearch\<close> failed, otherwise a function from the query to what the search gives
  back: \<open>Inl msg\<close> when it raises (with \<open>str(e)\<close>), \<open>Inr results\<close> when it returns.
\<close>

definition search_web ::
  "(string \<Rightarrow> string + search_results) option \<Rightarrow> string \<Rightarrow> controller
     \<Rightarrow> string option \<times> controller \<times> call list" where
  "search_web serpapi query s =
     (case serpapi of
        None \<Rightarrow> (None, log_violation ''Web search attempted but SerpAPI not installed'' s, [])
      | Some search \<Rightarrow>
          (case search query of
             Inl msg \<Rightarrow> (None, log_violation (''Web search failed: '' @ msg) s, [SearchCall query])
           | Inr results \<Rightarrow> (build_context results, s, [SearchCall query])))"

section \<open>Completion Client: \<open>_query_grok\<close>\<close>

text \<open>
  A request to the completion service: the model identifier and the messages (role and
  content). The sampling parameters of the payload are constants of the source and are
  left out. A response, as far as \<open>_query_grok\<close> reads it: \<open>status_code\<close>, the body
  \<open>resp_text\<close> (the attribute \<open>text\<close>), \<open>content\<close> for what
  \<open>response.json()["choices"][0]["message"]["content"]\<close> evaluates to (the reply, or the
  exception that \<open>json()\<close> or one of the lookups raises), and \<open>error_field\<close> for what
  \<open>response.json().get("error", {}).get("error", "Invalid request")\<close> evaluates to
  (\<open>None\<close> when it raises).
\<close>

record request =
  model :: string
  messages :: "(string \<times> string) list"

record response =
  status_code :: nat
  resp_text :: string
  content :: "exc + string"
  error_field :: "string option"

definition system_prompt :: string where
  "system_prompt =
        ''You are Grok, an advanced AI assistant created by xAI. \<newline>'' @
        ''Your goal is to provide accurate, insightful, and helpful answers that demonstrate deep understanding.\<newline>'' @
        ''\<newline>'' @
        ''Quality guidelines:\<newline>'' @
        ''- Provide detailed, well-reasoned answers that show you understand the topic thoroughly\<newline>'' @
        ''- When web search context is provided, use it to give current, factual, and accurate information\<newline>'' @
        ''- Be thorough but clear - explain concepts with relevant details and context\<newline>'' @
        ''- If asked to explain something, provide comprehensive information with examples when helpful\<newline>'' @
        ''- Be conversational, natural, and engaging - write like you're helping a friend understand\<newline>'' @
        ''- If uncertain about something, acknowledge it rather than speculating\<newline>'' @
        ''- When using information from web search, synthesize it naturally into a coherent answer\<newline>'' @
        ''- Prioritize accuracy, helpfulness, and completeness\<newline>'' @
        ''- Think through your answers before responding to ensure quality''"

definition build_messages :: "string \<Rightarrow> string option \<Rightarrow> (string \<times> string) list" where
  "build_messages user_input context =
     [(''system'',
       (case context of
          None \<Rightarrow> system_prompt
        | Some c \<Rightarrow>
            if c = [] then system_prompt
            else system_prompt
              @ ''\<newline>\<newline>=== Current Web Search Context (use this to inform your answer) ===\<newline>''
              @ c
              @ ''\<newline>=== End of Web Search Context ===\<newline>\<newline>''
              @ ''Use this context to provide an accurate, detailed, and helpful answer. ''
              @ ''Synthesize the information naturally into your response.'')),
      (''user'', user_input)]"

definition model_names :: "string list" where
  "model_names = [''grok-3'', ''grok-beta'', ''grok-2'', ''grok-vision-beta'', ''grok'']"

text \<open>
  The test of the \<open>400\<close> branch: the lowered body names a model that is invalid or not
  found.
\<close>

definition model_not_available :: "response \<Rightarrow> bool" where
  "model_not_available r =
     (let error_text = py_lower (resp_text r)
      in py_in ''model'' error_text
         \<and> (py_in ''invalid'' error_text \<or> py_in ''not found'' error_text))"

text \<open>
  How the loop \<open>for model_name in model_names\<close> is left: by \<open>return\<close> with the reply, by
  an exception, or by \<open>break\<close> or exhaustion with \<open>last_response\<close>. The loop comes with
  the requests it posted.
\<close>

datatype loop_exit = Returned string | Raised exc | LoopEnded "response option"

fun try_models ::
  "(request \<Rightarrow> exc + response) \<Rightarrow> (string \<times> string) list \<Rightarrow> string list \<Rightarrow> response option
     \<Rightarrow> loop_exit \<times> call list" where
  "try_models post msgs [] last_response = (LoopEnded last_response, [])"
| "try_models post msgs (model_name # rest) last_response =
     (case post \<lparr>model = model_name, messages = msgs\<rparr> of
        Inl e \<Rightarrow> (Raised e, [CompletionCall model_name])
      | Inr r \<Rightarrow>
          if status_code r = 200 then
            (case content r of
               Inl e \<Rightarrow> (Raised e, [CompletionCall model_name])
             | Inr reply \<Rightarrow> (Returned reply, [CompletionCall model_name]))
          else if status_code r = 400 then
            (if model_not_available r then
               (case try_models post msgs rest (Some r) of
                  (ex, calls) \<Rightarrow> (ex, CompletionCall model_name # calls))
             else (LoopEnded (Some r), [CompletionCall model_name]))
          else
            (case try_models post msgs rest (Some r) of
               (ex, calls) \<Rightarrow> (ex, CompletionCall model_name # calls)))"

text \<open>
  \<open>if last_response:\<close> tests the truth value of a \<open>requests.Response\<close>, which is its
  property \<open>ok\<close>: false exactly for the status codes from 400 to 599.
\<close>

definition response_truthy :: "response \<Rightarrow> bool" where
  "response_truthy r = (\<not> (400 \<le> status_code r \<and> status_code r < 600))"

definition api_key_preview :: "string \<Rightarrow> string" where
  "api_key_preview k = (if 10 < length k then take 5 k @ ''...'' else ''***'')"

text \<open>The chain of tests on \<open>last_response\<close> after the loop, once the violation is logged.\<close>

definition error_reply :: "response \<Rightarrow> controller \<Rightarrow> string" where
  "error_reply r s =
     (let error_text = py_lower (resp_text r) in
      if grok_api_key s = ''your-grok-api-key-here''
         \<or> py_in ''your-grok-api-key'' (py_lower (grok_api_key s))
      then ''Error: Grok API key not set. Edit .env file and add your API key from https://console.x.ai''
      else if status_code r = 401 \<or> py_in ''api key'' error_text \<or> py_in ''unauthorized'' error_text
      then ''Error: Invalid Grok API key ('' @ api_key_preview (grok_api_key s)
             @ ''). Get a valid key from https://console.x.ai''
      else if status_code r = 400 then
        (case error_field r of
           Some error_msg \<Rightarrow> ''Error: '' @ error_msg @ ''. Check API key and model availability.''
         | None \<Rightarrow> ''Error: Invalid request (400). Response: '' @ take 200 (resp_text r))
      else if status_code r = 404 then ''Error: API endpoint not found. URL: '' @ grok_api_url s
      else if status_code r = 429 then ''Error: Rate limit exceeded. Wait a moment and try again.''
      else ''Error: Grok API returned '' @ str_nat (status_code r) @ '': ''
             @ take 200 (resp_text r))"

text \<open>The four \<open>except\<close> clauses of \<open>_query_grok\<close>: the text returned and the violation.\<close>

definition handle_exc :: "exc \<Rightarrow> controller \<Rightarrow> string \<times> controller" where
  "handle_exc e s =
     (case e of
        ConnectionError msg \<Rightarrow>
          (''Error: Cannot connect to Grok API at '' @ grok_api_url s
             @ ''. Check your internet connection.'',
           log_violation (''Grok API connection error: '' @ msg) s)
      | Timeout msg \<Rightarrow>
          (''Error: Grok API request timed out. The service may be slow or unavailable.'',
           log_violation (''Grok API timeout: '' @ msg) s)
      | RequestException msg \<Rightarrow>
          (''Error: Network error connecting to Grok API: '' @ msg,
           log_violation (''Grok API request error: '' @ msg) s)
      | OtherException type_name msg \<Rightarrow>
          (''Error: Unexpected error with Grok API: '' @ type_name @ '': '' @ msg,
           log_violation (''Grok API unexpected error: '' @ type_name @ '': '' @ msg) s))"

definition no_response_received :: string where
  "no_response_received = ''Error: Could not get response from Grok (no response received)''"

definition query_grok ::
  "(request \<Rightarrow> exc + response) \<Rightarrow> string \<Rightarrow> string option \<Rightarrow> controller
     \<Rightarrow> string \<times> controller \<times> call list" where
  "query_grok post user_input context s =
     (if grok_api_key s = [] \<or> grok_api_key s \<in> set [''your-grok-api-key-here'', []] then
        (''Error: Grok API key not set. Edit .env file and add your API key from https://console.x.ai'',
         log_violation ''Grok API key not configured'' s, [])
      else
        (case try_models post (build_messages user_input context) model_names None of
           (Returned reply, calls) \<Rightarrow> (reply, s, calls)
         | (Raised e, calls) \<Rightarrow> (fst (handle_exc e s), snd (handle_exc e s), calls)
         | (LoopEnded last_response, calls) \<Rightarrow>
             (case last_response of
                None \<Rightarrow> (no_response_received, s, calls)
              | Some r \<Rightarrow>
                  if response_truthy r then
                    (error_reply r s,
                     log_violation (''Grok API error: '' @ str_nat (status_code r)) s, calls)
                  else (no_response_received, s, calls))))"

section \<open>Speech Interruption Monitor: \<open>_interruption_callback\<close>\<close>

text \<open>
  What \<open>recognizer.recognize_google(audio, language='en-US')\<close> does in the callback: it
  returns a text, or raises \<open>sr.UnknownValueError\<close>, \<open>sr.RequestError\<close>, or another
  exception. One invocation of the callback is one step on the controller.
\<close>

datatype recognition =
    Recognized string
  | UnknownValue
  | RequestError string
  | Failure string

definition interruption_callback :: "recognition \<Rightarrow> controller \<Rightarrow> controller" where
  "interruption_callback r s =
     (if \<not> speaking s \<or> interrupt_speech s then s
      else
        (case r of
           Recognized english_text \<Rightarrow>
             if english_text \<noteq> [] \<and> 0 < length (py_strip english_text) then
               log_violation (''Speech interrupted by user input: '' @ english_text)
                 (s\<lparr>interrupt_speech := True\<rparr>)
             else s
         | UnknownValue \<Rightarrow>
             log_violation ''Speech interrupted by audio detection (untranscribable)''
               (s\<lparr>interrupt_speech := True\<rparr>)
         | RequestError msg \<Rightarrow>
             log_violation ''Speech interrupted by audio detection (recognition error)''
               (s\<lparr>interrupt_speech := True\<rparr>)
         | Failure msg \<Rightarrow> s\<lparr>interrupt_speech := True\<rparr>))"

text \<open>
  The listener thread runs the callback while another thread of the controller is
  between two reads of \<open>interrupt_speech\<close>: \<open>hear rs\<close> runs it for the recognitions
  \<open>rs\<close>, in order.
\<close>

definition hear :: "recognition list \<Rightarrow> controller \<Rightarrow> controller" where
  "hear rs s = fold interruption_callback rs s"

section \<open>Turn Controller: \<open>_wait_for_silence\<close> and \<open>process_input\<close>\<close>

text \<open>
  \<open>_wait_for_silence\<close> polls \<open>interrupt_speech\<close> every 0.1 seconds until the clock has
  passed \<open>silence_timeout\<close>. The clock decides how many times the loop body runs: the
  argument has one entry for each run, the recognitions the listener delivered before
  that run reads the flag.
\<close>

fun wait_for_silence :: "recognition list list \<Rightarrow> controller \<Rightarrow> bool \<times> controller" where
  "wait_for_silence [] s = (True, s)"
| "wait_for_silence (rs # rest) s =
     (let s1 = hear rs s in
      if interrupt_speech s1 then (False, s1) else wait_for_silence rest s1)"

text \<open>The collaborators and the clock of one turn.\<close>

record environment =
  silence_polls :: "recognition list list"
  serpapi :: "(string \<Rightarrow> string + search_results) option"
  post :: "request \<Rightarrow> exc + response"

definition search_query_of :: "string \<Rightarrow> string" where
  "search_query_of user_input =
     (case extract_factual_claims user_input of
        [] \<Rightarrow> take 150 user_input
      | claim # _ \<Rightarrow> take 150 claim)"

definition process_input ::
  "environment \<Rightarrow> string \<Rightarrow> controller \<Rightarrow> (exc + string) \<times> controller \<times> call list" where
  "process_input env user_input s =
     (case wait_for_silence (silence_polls env) s of
        (False, s0) \<Rightarrow>
          (Inr ''Interrupted'',
           log_violation ''Response generated without silence timeout'' s0, [])
      | (True, s0) \<Rightarrow>
          (case search_web (serpapi env) (search_query_of user_input) s0 of
             (search_context, s1, calls1) \<Rightarrow>
               (case query_grok (post env) user_input search_context s1 of
                  (reply, s2, calls2) \<Rightarrow>
                    (case limit_response_length reply user_input s2 of
                       (shaped, s3) \<Rightarrow> (shaped, s3, calls1 @ calls2)))))"

text \<open>
  A controller as the constructor builds it with its default arguments (ten words,
  the keyword \<open>explain\<close>, no ElevenLabs key), at clock reading 0.
\<close>

definition default_controller :: controller where
  "default_controller =
     \<lparr>grok_api_key = ''xai-0123456789abcdef'',
      grok_api_url = ''https://api.x.ai/v1/chat/completions'',
      serpapi_key = ''serp-key'',
      max_response_words = 10,
      explain_keyword = ''explain'',
      use_elevenlabs = False,
      elevenlabs_available = False,
      speaking = False,
      interrupt_speech = False,
      background_listener_stop = False,
      is_listening = False,
      violations = [],
      now = 0\<rparr>"

section \<open>Speech Player: \<open>_speak_text\<close>\<close>




text \<open>How a call into \<open>subprocess\<close> ends.\<close>

datatype outcome = Returns | TimeoutExpired | Raises

text \<open>
  What happens around one chunk of the loop \<open>for i in range(0, len(words), chunk_size)\<close>.
  The lists of recognitions are what the listener delivers before each read of
  \<open>interrupt_speech\<close>: before the test at the top of the loop, before each poll of the
  running \<open>say\<close> process (\<open>running\<close> has one entry for each poll that finds the process
  alive, with whether three seconds have passed), before the test that guards
  \<open>proc.wait\<close>, and before the test at the end of the body. \<open>popen_raises\<close> is about
  \<open>subprocess.Popen\<close>, \<open>pkill\<close> about \<open>proc.kill()\<close> and \<open>pkill\<close> in the loop, \<open>wait\<close> about
  \<open>proc.wait(timeout=1)\<close>, \<open>handler_raises\<close> about the \<open>pkill\<close> of the handler of
  \<open>TimeoutExpired\<close>.
\<close>

record chunk_run =
  heard_before :: "recognition list"
  popen_raises :: bool
  running :: "(recognition list \<times> bool) list"
  pkill :: outcome
  heard_after_loop :: "recognition list"
  wait :: outcome
  handler_raises :: bool
  heard_after_chunk :: "recognition list"

datatype poll_exit = Exited | Interrupted | Late

fun poll_say :: "(recognition list \<times> bool) list \<Rightarrow> controller \<Rightarrow> poll_exit \<times> controller" where
  "poll_say [] s = (Exited, s)"
| "poll_say ((rs, late) # rest) s =
     (let s1 = hear rs s in
      if interrupt_speech s1 then (Interrupted, s1)
      else if late then (Late, s1)
      else poll_say rest s1)"








text \<open>
  The ElevenLabs branch. \<open>gen_waits\<close> has one entry for each pass of the loop that waits
  for the generating thread; \<open>generated\<close> is what that thread has left when the loop is
  over: nothing yet, audio data (\<open>True\<close> when not empty), or an error.
\<close>

datatype generation = Pending | Audio bool | GenError

record eleven_run =
  gen_waits :: "recognition list list"
  generated :: generation
  heard_before_play :: "recognition list"
  play_raises :: bool
  heard_after_play :: "recognition list"

fun wait_generated :: "recognition list list \<Rightarrow> controller \<Rightarrow> controller" where
  "wait_generated [] s = s"
| "wait_generated (rs # rest) s =
     (let s1 = hear rs s in
      if interrupt_speech s1 then s1 else wait_generated rest s1)"




text \<open>
  The session: the listener's start, the outcomes of ElevenLabs and of the chunks, and
  the callback (\<open>None\<close> when \<open>_speak_text\<close> got none, otherwise whether it raises).
\<close>

record speech_env =
  listener_starts :: bool
  eleven :: eleven_run
  chunk_runs :: "nat \<Rightarrow> chunk_run"
  on_done :: "bool option"



section \<open>The writes of a speech session\<close>





section \<open>The violation log as an object\<close>

text \<open>
  \<open>self.violations\<close> is a Python list of dictionaries. To tell a list from a copy of it,
  objects live in a store, at the address that is their index: a list object holds the
  addresses of its elements, a dictionary object holds a violation.
\<close>

type_synonym ref = nat

datatype pyobj = PyList "ref list" | PyDict violation

type_synonym store = "pyobj list"

definition list_at :: "store \<Rightarrow> ref \<Rightarrow> ref list option" where
  "list_at h r =
     (if r < length h then (case h ! r of PyList xs \<Rightarrow> Some xs | PyDict _ \<Rightarrow> None) else None)"

definition dict_at :: "store \<Rightarrow> ref \<Rightarrow> violation option" where
  "dict_at h r =
     (if r < length h then (case h ! r of PyDict v \<Rightarrow> Some v | PyList _ \<Rightarrow> None) else None)"

text \<open>
  \<open>_log_violation\<close> on the store: a new dictionary, appended to the list that
  \<open>self.violations\<close> names (\<open>log\<close>).
\<close>

definition log_violation_at :: "ref \<Rightarrow> violation \<Rightarrow> store \<Rightarrow> store" where
  "log_violation_at log v h =
     (case list_at h log of
        None \<Rightarrow> h
      | Some xs \<Rightarrow> (h @ [PyDict v])[log := PyList (xs @ [length h])])"

text \<open>
  \<open>get_violations\<close>: \<open>self.violations.copy()\<close> makes a new list object with the same
  elements and returns its address.
\<close>

definition get_violations :: "ref \<Rightarrow> store \<Rightarrow> (ref \<times> store) option" where
  "get_violations log h =
     (case list_at h log of
        None \<Rightarrow> None
      | Some xs \<Rightarrow> Some (length h, h @ [PyList xs]))"

text \<open>
  What a caller can do to a list it holds: \<open>append\<close>, \<open>pop()\<close>, \<open>clear()\<close>, \<open>xs[i] = r\<close>,
  \<open>insert\<close>, \<open>reverse()\<close>, \<open>del xs[i]\<close>. An operation that raises leaves the list as it
  is.
\<close>

datatype list_op =
    Append ref
  | Pop
  | Clear
  | SetItem nat ref
  | Insert nat ref
  | Reverse
  | DelItem nat

fun apply_list_op :: "list_op \<Rightarrow> ref list \<Rightarrow> ref list" where
  "apply_list_op (Append r) xs = xs @ [r]"
| "apply_list_op Pop xs = butlast xs"
| "apply_list_op Clear xs = []"
| "apply_list_op (SetItem i r) xs = xs[i := r]"
| "apply_list_op (Insert i r) xs = take i xs @ [r] @ drop i xs"
| "apply_list_op Reverse xs = rev xs"
| "apply_list_op (DelItem i) xs = take i xs @ drop (Suc i) xs"

definition mutate :: "ref \<Rightarrow> list_op \<Rightarrow> store \<Rightarrow> store" where
  "mutate r lop h =
     (case list_at h r of
        None \<Rightarrow> h
      | Some xs \<Rightarrow> h[r := PyList (apply_list_op lop xs)])"

section \<open>Vocabulary of the statements\<close>

text \<open>Whether a call of the trace is a search.\<close>

definition is_search_call :: "call \<Rightarrow> bool" where
  "is_search_call c = (case c of SearchCall _ \<Rightarrow> True | CompletionCall _ \<Rightarrow> False)"

text \<open>
  The outcomes of one request at which the fallback loop stops: an exception, the
  status 200, or a status 400 whose body does not say that the model is unavailable.
\<close>

definition stops_fallback :: "exc + response \<Rightarrow> bool" where
  "stops_fallback out =
     (case out of
        Inl e \<Rightarrow> True
      | Inr r \<Rightarrow> status_code r = 200 \<or> (status_code r = 400 \<and> \<not> model_not_available r))"




section \<open>Sample collaborators\<close>

text \<open>
  Collaborators for the concrete runs below: a search that finds nothing, a search that
  gives only a direct answer, a completion service that answers every request with
  401, and one that answers 503 for the first model and 200 for the others.
\<close>

definition no_results :: search_results where
  "no_results = \<lparr>answer_box = None, organic_results = None\<rparr>"

definition answer_only :: search_results where
  "answer_only = \<lparr>answer_box = Some [(''answer'', ''42'')], organic_results = Some []\<rparr>"

definition unauthorized :: response where
  "unauthorized = \<lparr>status_code = 401, resp_text = ''Unauthorized'',
     content = Inl (OtherException ''KeyError'' ''choices''), error_field = None\<rparr>"

definition unauthorized_env :: environment where
  "unauthorized_env = \<lparr>silence_polls = [[], []], serpapi = Some (\<lambda>q. Inr no_results),
     post = (\<lambda>rq. Inr unauthorized)\<rparr>"

definition unavailable :: response where
  "unavailable = \<lparr>status_code = 503, resp_text = ''Service Unavailable'',
     content = Inl (OtherException ''KeyError'' ''choices''), error_field = None\<rparr>"

definition greeting :: response where
  "greeting = \<lparr>status_code = 200, resp_text = ''ok'',
     content = Inr ''Hello!'', error_field = None\<rparr>"

definition flaky_post :: "request \<Rightarrow> exc + response" where
  "flaky_post rq = (if model rq = ''grok-3'' then Inr unavailable else Inr greeting)"



definition two_violations :: store where
  "two_violations =
     log_violation_at 0 \<lparr>timestamp = 2, message = ''Response truncated: 11 words -> 10 words''\<rparr>
       (log_violation_at 0 \<lparr>timestamp = 1, message = ''Grok API timeout: timed out''\<rparr>
          [PyList []])"

section \<open>Facts about the string functions\<close>

lemma py_in_iff: "py_in sub s \<longleftrightarrow> (\<exists>pre post. s = pre @ sub @ post)"
proof (induction s)
  case Nil
  then show ?case by auto
next
  case (Cons c cs)
  show ?case
  proof
    assume "py_in sub (c # cs)"
    then consider "prefix sub (c # cs)" | "py_in sub cs" by auto
    then show "\<exists>pre post. c # cs = pre @ sub @ post"
    proof cases
      case 1
      then obtain post where "c # cs = sub @ post" by (auto simp: prefix_def)
      then have "c # cs = [] @ sub @ post" by simp
      then show ?thesis by blast
    next
      case 2
      with Cons.IH obtain pre post where "cs = pre @ sub @ post" by blast
      then have "c # cs = (c # pre) @ sub @ post" by simp
      then show ?thesis by blast
    qed
  next
    assume "\<exists>pre post. c # cs = pre @ sub @ post"
    then obtain pre post where eq: "c # cs = pre @ sub @ post" by blast
    show "py_in sub (c # cs)"
    proof (cases pre)
      case Nil
      with eq have "prefix sub (c # cs)" by (simp add: prefix_def)
      then show ?thesis by simp
    next
      case (Cons p ps)
      with eq have "cs = ps @ sub @ post" by simp
      with Cons.IH have "py_in sub cs" by blast
      then show ?thesis by simp
    qed
  qed
qed

text \<open>
  The words of \<open>split()\<close> are not empty and hold no whitespace; joining such words with
  a blank and splitting again gives them back.
\<close>

lemma isspace_blank: "isspace (CHR '' '')"
  by code_simp

lemma split_from_words:
  "w \<in> set (split_from cur s) \<Longrightarrow> \<forall>c\<in>set cur. \<not> isspace c
     \<Longrightarrow> w \<noteq> [] \<and> (\<forall>c\<in>set w. \<not> isspace c)"
proof (induction s arbitrary: cur)
  case Nil
  then show ?case by (auto split: if_splits)
next
  case (Cons c cs)
  show ?case
  proof (cases "isspace c")
    case True
    with Cons.prems have "w = cur \<and> cur \<noteq> [] \<or> w \<in> set (split_from [] cs)"
      by (auto split: if_splits)
    then show ?thesis
    proof
      assume "w = cur \<and> cur \<noteq> []"
      with Cons.prems(2) show ?thesis by simp
    next
      assume "w \<in> set (split_from [] cs)"
      then show ?thesis by (rule Cons.IH) simp
    qed
  next
    case False
    with Cons.prems have "w \<in> set (split_from (cur @ [c]) cs)" by simp
    then show ?thesis
      by (rule Cons.IH) (use False Cons.prems(2) in auto)
  qed
qed

lemma py_split_words:
  "w \<in> set (py_split s) \<Longrightarrow> w \<noteq> [] \<and> (\<forall>c\<in>set w. \<not> isspace c)"
  using split_from_words [of w "[]" s] by (simp add: py_split_def)

lemma split_from_word:
  "\<forall>c\<in>set w. \<not> isspace c \<Longrightarrow> split_from cur (w @ s) = split_from (cur @ w) s"
  by (induction w arbitrary: cur) simp_all

lemma split_join:
  "\<forall>w\<in>set ws. w \<noteq> [] \<and> (\<forall>c\<in>set w. \<not> isspace c) \<Longrightarrow> py_split (py_join '' '' ws) = ws"
proof (induction "'' ''" ws rule: py_join.induct)
  case 1
  then show ?case by (simp add: py_split_def)
next
  case (2 w)
  then have "split_from [] (w @ []) = split_from ([] @ w) []"
    by (intro split_from_word) simp
  with 2 show ?case by (simp add: py_split_def)
next
  case (3 w v ws)
  from 3 have w: "\<forall>c\<in>set w. \<not> isspace c" and ne: "w \<noteq> []" by simp_all
  have "split_from [] (w @ '' '' @ py_join '' '' (v # ws))
        = split_from ([] @ w) ('' '' @ py_join '' '' (v # ws))"
    using w by (rule split_from_word)
  also have "\<dots> = w # split_from [] (py_join '' '' (v # ws))"
    using ne isspace_blank by simp
  also have "split_from [] (py_join '' '' (v # ws)) = v # ws"
    using 3 by (simp add: py_split_def)
  finally show ?case by (simp add: py_split_def)
qed

lemma split_join_prefix: "py_split (py_join '' '' (take k (py_split s))) = take k (py_split s)"
  by (rule split_join) (auto dest!: in_set_takeD py_split_words)

section \<open>The Response Shaper leaves some replies alone\<close>

text \<open>
  Claim C7. \<open>_limit_response_length\<close> returns the reply unchanged, and logs nothing,
  whenever the triggering input contains the explain keyword in any letter case (some
  piece of the input lowers to the configured keyword, which \<open>__init__\<close> stores lowered),
  whatever the length of the reply, and also whenever the reply has at most
  \<open>max_response_words\<close> words.
\<close>

theorem limit_response_length_unchanged:
  assumes "explain_keyword s = py_lower keyword"
    and "(\<exists>pre w post. user_input = pre @ w @ post \<and> py_lower w = py_lower keyword)
         \<or> int (length (py_split response)) \<le> max_response_words s"
  shows "limit_response_length response user_input s = (Inr response, s)"
proof -
  from assms(2) consider
      (kw) pre w post where "user_input = pre @ w @ post" "py_lower w = py_lower keyword"
    | (short) "int (length (py_split response)) \<le> max_response_words s"
    by blast
  then show ?thesis
  proof cases
    case kw
    then have "py_lower user_input = py_lower pre @ explain_keyword s @ py_lower post"
      using assms(1) by (simp add: py_lower_def)
    then have "py_in (explain_keyword s) (py_lower user_input)"
      unfolding py_in_iff by blast
    then show ?thesis by (simp add: limit_response_length_def)
  next
    case short
    then show ?thesis by (simp add: limit_response_length_def Let_def)
  qed
qed

theorem limit_response_length_unchanged_witness:
  "explain_keyword default_controller = py_lower ''Explain''
   \<and> ''Please EXPLAIN each of these twelve or so words, one by one'' =
         ''Please '' @ ''EXPLAIN'' @ '' each of these twelve or so words, one by one''
   \<and> py_lower ''EXPLAIN'' = py_lower ''Explain''
   \<and> limit_response_length ''one two three four five six seven eight nine ten eleven twelve''
         ''Please EXPLAIN each of these twelve or so words, one by one'' default_controller
       = (Inr ''one two three four five six seven eight nine ten eleven twelve'',
          default_controller)"
proof -
  have k: "explain_keyword default_controller = py_lower ''Explain''"
    by code_simp
  have l: "py_lower ''EXPLAIN'' = py_lower ''Explain''"
    by code_simp
  have e: "''Please EXPLAIN each of these twelve or so words, one by one'' =
           ''Please '' @ ''EXPLAIN'' @ '' each of these twelve or so words, one by one''"
    by simp
  from e l have "\<exists>pre w post.
      ''Please EXPLAIN each of these twelve or so words, one by one'' = pre @ w @ post
      \<and> py_lower w = py_lower ''Explain''"
    by blast
  then show ?thesis
    using k l e limit_response_length_unchanged [OF k, of
        "''Please EXPLAIN each of these twelve or so words, one by one''"
        "''one two three four five six seven eight nine ten eleven twelve''"]
    by blast
qed

section \<open>The ellipsis of the Response Shaper\<close>

text \<open>
  When \<open>max_response_words\<close> is not negative and the reply is too long, the result of
  \<open>_limit_response_length\<close> is the first \<open>k\<close> words of the reply joined by blanks, for
  some \<open>k\<close> up to \<open>max_response_words\<close>: the scan looks at indices inside the list, and
  the truncation never has more than \<open>max_response_words\<close> words, so the branch that
  would append \<open>...\<close> is not taken.
\<close>

lemma count_down_set: "i \<in> set (count_down start k) \<Longrightarrow> start - int k < i \<and> i \<le> start"
  by (induction start k rule: count_down.induct) auto

lemma py_range_down_set: "i \<in> set (py_range_down start stop) \<Longrightarrow> stop < i \<and> i \<le> start"
proof (cases "stop \<le> start")
  case True
  assume "i \<in> set (py_range_down start stop)"
  then have "start - int (nat (start - stop)) < i \<and> i \<le> start"
    unfolding py_range_down_def by (rule count_down_set)
  with True show ?thesis by simp
next
  case False
  assume "i \<in> set (py_range_down start stop)"
  with False show ?thesis by (simp add: py_range_down_def)
qed

lemma find_boundary_in_range:
  assumes "\<forall>i\<in>set idxs. 0 \<le> i \<and> i < int (length words)"
    and "\<forall>w\<in>set words. w \<noteq> []"
  shows "find_boundary words idxs = Inr None
         \<or> (\<exists>i\<in>set idxs. find_boundary words idxs = Inr (Some i))"
  using assms(1)
proof (induction idxs)
  case Nil
  then show ?case by simp
next
  case (Cons i rest)
  then have i: "0 \<le> i" "i < int (length words)" by simp_all
  then have "nat i < length words" by simp
  then have "words ! nat i \<in> set words" by simp
  with assms(2) have "words ! nat i \<noteq> []" by blast
  then obtain b where "ends_sentence (words ! nat i) = Inr b"
    by (cases "words ! nat i") (auto simp: ends_sentence_def)
  with i Cons show ?case
    by (cases b) (auto simp: py_index_def)
qed

lemma limit_response_length_truncates:
  assumes n: "0 \<le> max_response_words s"
    and kw: "\<not> py_in (explain_keyword s) (py_lower user_input)"
    and long: "max_response_words s < int (length (py_split response))"
  shows "\<exists>k\<le>nat (max_response_words s).
           limit_response_length response user_input s =
             truncation_logged (length (py_split response))
               (py_join '' '' (take k (py_split response))) s"
proof -
  let ?words = "py_split response"
  let ?n = "max_response_words s"
  let ?idxs = "py_range_down (min ?n (int (length ?words)) - 1) (max 0 (?n - 5))"
  have ne: "\<forall>w\<in>set ?words. w \<noteq> []"
    using py_split_words by blast
  have rng: "\<forall>i\<in>set ?idxs. 0 \<le> i \<and> i < int (length ?words)"
    using long by (auto dest!: py_range_down_set)
  have short: "\<not> ?n < int (length (py_split (py_join '' '' (take k ?words))))"
    if "k \<le> nat ?n" for k
  proof -
    have "length (py_split (py_join '' '' (take k ?words))) \<le> k"
      by (simp add: split_join_prefix)
    with that n show ?thesis by linarith
  qed
  from find_boundary_in_range [OF rng ne]
  consider (none) "find_boundary ?words ?idxs = Inr None"
    | (some) i where "i \<in> set ?idxs" "find_boundary ?words ?idxs = Inr (Some i)"
    by blast
  then show ?thesis
  proof cases
    case none
    have "limit_response_length response user_input s =
            truncation_logged (length ?words) (py_join '' '' (take (nat ?n) ?words)) s"
      using n kw long none short [of "nat ?n"]
      by (simp add: limit_response_length_def Let_def py_slice_to_def)
    then show ?thesis by blast
  next
    case some
    from some(1) have i: "0 < i" "i \<le> ?n - 1"
      by (auto dest!: py_range_down_set)
    then have le: "nat (i + 1) \<le> nat ?n" by simp
    have "limit_response_length response user_input s =
            truncation_logged (length ?words) (py_join '' '' (take (nat (i + 1)) ?words)) s"
      using n kw long some(2) i short [OF le]
      by (simp add: limit_response_length_def Let_def py_slice_to_def)
    with le show ?thesis by blast
  qed
qed

lemma limit_response_length_returns:
  assumes "0 \<le> max_response_words s"
  shows "\<exists>txt. fst (limit_response_length response user_input s) = Inr txt"
proof (cases "py_in (explain_keyword s) (py_lower user_input)
              \<or> \<not> max_response_words s < int (length (py_split response))")
  case True
  then show ?thesis by (auto simp: limit_response_length_def Let_def)
next
  case False
  with assms limit_response_length_truncates [of s user_input response]
  show ?thesis by (auto simp: truncation_logged_def)
qed

text \<open>
  Claim C4 says that a truncation that does not end in \<open>.\<close>, \<open>!\<close> or \<open>?\<close> gets an
  ellipsis. In \<open>_limit_response_length\<close> the line that appends \<open>...\<close> stands under the
  test \<open>len(truncated.split()) > self.max_response_words\<close>, which a truncation to at
  most \<open>max_response_words\<close> words never passes. With the default ten words, a reply of
  eleven words without punctuation is cut to its first ten words and returned with no
  ellipsis; the truncation is logged.
\<close>

theorem limit_response_length_no_ellipsis:
  "limit_response_length ''one two three four five six seven eight nine ten eleven''
       ''tell me'' default_controller
   = (Inr ''one two three four five six seven eight nine ten'',
      log_violation ''Response truncated: 11 words -> 10 words'' default_controller)"
  by code_simp

section \<open>The silence gate\<close>

lemma callback_keeps_flag: "interrupt_speech s \<Longrightarrow> interruption_callback r s = s"
  by (simp add: interruption_callback_def)

lemma hear_keeps_flag: "interrupt_speech s \<Longrightarrow> hear rs s = s"
  by (induction rs) (simp_all add: hear_def callback_keeps_flag)

lemma hear_append: "hear (a @ b) s = hear b (hear a s)"
  by (simp add: hear_def)

lemma wait_for_silence_interrupted:
  "k < length polls \<Longrightarrow> interrupt_speech (hear (concat (take (Suc k) polls)) s)
     \<Longrightarrow> fst (wait_for_silence polls s) = False"
proof (induction polls arbitrary: s k)
  case Nil
  then show ?case by simp
next
  case (Cons rs rest)
  show ?case
  proof (cases "interrupt_speech (hear rs s)")
    case True
    then show ?thesis by (simp add: Let_def)
  next
    case False
    with Cons.prems(2) obtain k' where k: "k = Suc k'"
      by (cases k) auto
    with Cons.prems have "k' < length rest"
      and "interrupt_speech (hear (concat (take (Suc k') rest)) (hear rs s))"
      by (simp_all add: hear_append)
    then have "fst (wait_for_silence rest (hear rs s)) = False"
      by (rule Cons.IH)
    with False show ?thesis by (simp add: Let_def)
  qed
qed

text \<open>
  Claim C5. If the interruption signal arrives during the silence wait of
  \<open>process_input\<close>, that is, if at one of the polls of \<open>_wait_for_silence\<close> the flag
  \<open>interrupt_speech\<close> is set once the recognitions delivered so far have been heard,
  then \<open>process_input\<close> returns \<open>Interrupted\<close>, appends the violation
  \<open>Response generated without silence timeout\<close> to the log, and calls neither the search
  nor the completion service: its list of calls is empty.
\<close>

theorem process_input_interrupted:
  assumes "k < length (silence_polls env)"
    and "interrupt_speech (hear (concat (take (Suc k) (silence_polls env))) s)"
  shows "process_input env user_input s =
           (Inr ''Interrupted'',
            log_violation ''Response generated without silence timeout''
              (snd (wait_for_silence (silence_polls env) s)), [])"
proof -
  have "fst (wait_for_silence (silence_polls env) s) = False"
    using assms by (rule wait_for_silence_interrupted)
  then obtain s0 where "wait_for_silence (silence_polls env) s = (False, s0)"
    by (cases "wait_for_silence (silence_polls env) s") auto
  then show ?thesis
    by (simp add: process_input_def)
qed

theorem process_input_interrupted_witness:
  "map message (violations (fst (snd (process_input
       (unauthorized_env\<lparr>silence_polls := [[], [UnknownValue], []]\<rparr>) ''hello''
       (default_controller\<lparr>speaking := True\<rparr>)))))
     = [''Speech interrupted by audio detection (untranscribable)'',
        ''Response generated without silence timeout'']
   \<and> fst (process_input (unauthorized_env\<lparr>silence_polls := [[], [UnknownValue], []]\<rparr>)
            ''hello'' (default_controller\<lparr>speaking := True\<rparr>)) = Inr ''Interrupted''
   \<and> snd (snd (process_input (unauthorized_env\<lparr>silence_polls := [[], [UnknownValue], []]\<rparr>)
            ''hello'' (default_controller\<lparr>speaking := True\<rparr>))) = []"
proof -
  let ?env = "unauthorized_env\<lparr>silence_polls := [[], [UnknownValue], []]\<rparr>"
  let ?s = "default_controller\<lparr>speaking := True\<rparr>"
  have h1: "1 < length (silence_polls ?env)"
    by simp
  have h2: "interrupt_speech (hear (concat (take (Suc 1) (silence_polls ?env))) ?s)"
    by code_simp
  have v: "map message (violations (log_violation ''Response generated without silence timeout''
               (snd (wait_for_silence (silence_polls ?env) ?s))))
     = [''Speech interrupted by audio detection (untranscribable)'',
        ''Response generated without silence timeout'']"
    by code_simp
  from process_input_interrupted [OF h1 h2, of "''hello''"] v show ?thesis
    by simp
qed

section \<open>One search for each turn\<close>

lemma try_models_no_search:
  "try_models send msgs ms lr = (ex, calls) \<Longrightarrow> filter is_search_call calls = []"
  by (induction ms arbitrary: lr ex calls)
     (auto simp: is_search_call_def split: sum.splits if_splits prod.splits)

lemma query_grok_no_search:
  "filter is_search_call (snd (snd (query_grok send user_input context s))) = []"
  by (auto simp: query_grok_def dest: try_models_no_search
           split: prod.splits loop_exit.splits option.splits)

text \<open>
  Claim C6. In every run of \<open>process_input\<close> that passes the silence gate, with the
  search collaborator available, exactly one search call is made. Its query is the
  first extracted claim cut to 150 characters when \<open>_extract_factual_claims\<close> yields a
  claim, and the raw input cut to 150 characters otherwise; it never has more than 150
  characters.
\<close>

theorem process_input_one_search:
  assumes "fst (wait_for_silence (silence_polls env) s)"
    and "serpapi env = Some search"
  shows "filter is_search_call (snd (snd (process_input env user_input s)))
           = [SearchCall (case extract_factual_claims user_input of
                            [] \<Rightarrow> take 150 user_input
                          | claim # _ \<Rightarrow> take 150 claim)]
         \<and> length (case extract_factual_claims user_input of
                      [] \<Rightarrow> take 150 user_input
                    | claim # _ \<Rightarrow> take 150 claim) \<le> 150"
proof -
  obtain s0 where w: "wait_for_silence (silence_polls env) s = (True, s0)"
    using assms(1) by (cases "wait_for_silence (silence_polls env) s") auto
  obtain ctx s1 where sw: "search_web (serpapi env) (search_query_of user_input) s0
      = (ctx, s1, [SearchCall (search_query_of user_input)])"
    using assms(2)
    by (cases "search (search_query_of user_input)") (auto simp: search_web_def)
  obtain reply s2 calls2 where q: "query_grok (post env) user_input ctx s1 = (reply, s2, calls2)"
    by (cases "query_grok (post env) user_input ctx s1") auto
  have c2: "filter is_search_call calls2 = []"
    using query_grok_no_search [of "post env" user_input ctx s1] q by simp
  have "snd (snd (process_input env user_input s)) = SearchCall (search_query_of user_input) # calls2"
    using w sw q by (simp add: process_input_def split: prod.splits)
  then have "filter is_search_call (snd (snd (process_input env user_input s)))
      = [SearchCall (search_query_of user_input)]"
    using c2 by (simp add: is_search_call_def)
  moreover have "length (search_query_of user_input) \<le> 150"
    by (simp add: search_query_of_def split: list.splits)
  ultimately show ?thesis
    by (simp add: search_query_of_def)
qed

theorem process_input_one_search_witness:
  "filter is_search_call
     (snd (snd (process_input unauthorized_env ''The moon landing was in 1969.''
                  default_controller)))
     = [SearchCall ''The moon landing was in 1969'']"
proof -
  have h1: "fst (wait_for_silence (silence_polls unauthorized_env) default_controller)"
    by code_simp
  have h2: "serpapi unauthorized_env = Some (\<lambda>q. Inr no_results)"
    by (simp add: unauthorized_env_def)
  have q: "(case extract_factual_claims ''The moon landing was in 1969.'' of
              [] \<Rightarrow> take 150 ''The moon landing was in 1969.''
            | claim # _ \<Rightarrow> take 150 claim) = ''The moon landing was in 1969''"
    by code_simp
  from process_input_one_search [OF h1 h2, of "''The moon landing was in 1969.''"] q
  show ?thesis by simp
qed

section \<open>The context of a direct answer\<close>

text \<open>
  Claim C8 says that a search that succeeds with a direct-answer snippet yields a
  context that contains it. In \<open>_search_web\<close> the \<open>return combined_context\<close> stands inside
  the branch \<open>if "organic_results" in results and len(results["organic_results"]) > 0\<close>:
  when the search gives a direct answer and no organic result, the part
  \<open>Direct answer: 42\<close> has been built and is dropped, and \<open>_search_web\<close> returns \<open>None\<close>.
\<close>

theorem search_web_drops_direct_answer:
  "search_web (Some (\<lambda>q. Inr answer_only)) ''meaning of life'' default_controller
     = (None, default_controller, [SearchCall ''meaning of life''])"
  by code_simp

section \<open>Violations of a failed completion\<close>

text \<open>
  \<open>process_input\<close> returns a text and raises nothing when \<open>max_response_words\<close> is not
  negative, whatever the collaborators do; and a completion request that ends in an
  exception makes \<open>_query_grok\<close> log exactly one violation.
\<close>

lemma limit_response_length_max_words:
  "max_response_words (snd (limit_response_length response user_input s)) = max_response_words s"
  by (auto simp: limit_response_length_def Let_def truncation_logged_def log_violation_def
           split: sum.splits option.splits)

lemma hear_max_words: "max_response_words (hear rs s) = max_response_words s"
proof (induction rs arbitrary: s)
  case Nil
  then show ?case by (simp add: hear_def)
next
  case (Cons r rs)
  have "max_response_words (interruption_callback r s) = max_response_words s"
    by (auto simp: interruption_callback_def log_violation_def split: recognition.splits)
  with Cons [of "interruption_callback r s"] show ?case by (simp add: hear_def)
qed

lemma wait_for_silence_max_words:
  "max_response_words (snd (wait_for_silence polls s)) = max_response_words s"
  by (induction polls arbitrary: s) (simp_all add: Let_def hear_max_words)

lemma search_web_max_words:
  "max_response_words (fst (snd (search_web api query s))) = max_response_words s"
  by (auto simp: search_web_def log_violation_def split: option.splits sum.splits)

lemma query_grok_max_words:
  "max_response_words (fst (snd (query_grok send user_input context s))) = max_response_words s"
  by (auto simp: query_grok_def handle_exc_def log_violation_def
           split: prod.splits loop_exit.splits option.splits exc.splits)

lemma process_input_returns_text:
  assumes "0 \<le> max_response_words s"
  shows "\<exists>txt. fst (process_input env user_input s) = Inr txt"
proof -
  obtain b s0 where w: "wait_for_silence (silence_polls env) s = (b, s0)"
    by (cases "wait_for_silence (silence_polls env) s") auto
  show ?thesis
  proof (cases b)
    case False
    with w show ?thesis by (simp add: process_input_def)
  next
    case True
    obtain ctx s1 calls1 where sw:
      "search_web (serpapi env) (search_query_of user_input) s0 = (ctx, s1, calls1)"
      by (cases "search_web (serpapi env) (search_query_of user_input) s0") auto
    obtain reply s2 calls2 where q: "query_grok (post env) user_input ctx s1 = (reply, s2, calls2)"
      by (cases "query_grok (post env) user_input ctx s1") auto
    have "max_response_words s0 = max_response_words s"
      using w wait_for_silence_max_words [of "silence_polls env" s] by simp
    moreover have "max_response_words s1 = max_response_words s0"
      using sw search_web_max_words [of "serpapi env" "search_query_of user_input" s0] by simp
    moreover have "max_response_words s2 = max_response_words s1"
      using q query_grok_max_words [of "post env" user_input ctx s1] by simp
    ultimately have "0 \<le> max_response_words s2" using assms by simp
    then obtain shaped where "fst (limit_response_length reply user_input s2) = Inr shaped"
      using limit_response_length_returns by blast
    with True w sw q show ?thesis
      by (auto simp: process_input_def split: prod.splits)
  qed
qed

lemma query_grok_exception_logged_once:
  assumes "grok_api_key s \<noteq> []" and "grok_api_key s \<noteq> ''your-grok-api-key-here''"
    and "fst (try_models send (build_messages user_input context) model_names None) = Raised e"
  shows "\<exists>v. violations (fst (snd (query_grok send user_input context s))) = violations s @ [v]"
proof -
  have "\<exists>v. violations (snd (handle_exc e s)) = violations s @ [v]"
    by (cases e) (simp_all add: handle_exc_def log_violation_def)
  with assms show ?thesis
    by (auto simp: query_grok_def split: prod.splits)
qed

text \<open>
  Claim C9 says that every failure of the completion call records exactly one
  violation. After the loop \<open>_query_grok\<close> logs \<open>Grok API error: ...\<close> under
  \<open>if last_response:\<close>, and a response with an error status is false there. When the
  service answers every request with 401, \<open>process_input\<close> returns the text
  \<open>Error: Could not get response from Grok (no response received)\<close> and the log is
  unchanged, after all five models were tried.
\<close>

theorem process_input_unauthorized_logs_nothing:
  "process_input unauthorized_env ''hello'' default_controller
     = (Inr ''Error: Could not get response from Grok (no response received)'',
        default_controller,
        [SearchCall ''hello'', CompletionCall ''grok-3'', CompletionCall ''grok-beta'',
         CompletionCall ''grok-2'', CompletionCall ''grok-vision-beta'', CompletionCall ''grok''])"
  by code_simp

section \<open>The order of the model fallback\<close>

lemma try_models_stop:
  "stops_fallback (send \<lparr>model = m, messages = msgs\<rparr>)
     \<Longrightarrow> snd (try_models send msgs (m # rest) lr) = [CompletionCall m]"
  by (auto simp: stops_fallback_def split: sum.splits prod.splits)

lemma try_models_go:
  "send \<lparr>model = m, messages = msgs\<rparr> = Inr r
     \<Longrightarrow> \<not> stops_fallback (Inr r)
     \<Longrightarrow> snd (try_models send msgs (m # rest) lr)
           = CompletionCall m # snd (try_models send msgs rest (Some r))"
  by (cases "try_models send msgs rest (Some r)") (auto simp: stops_fallback_def)

lemma try_models_attempts:
  "snd (try_models send msgs ms lr) =
     map CompletionCall
       (takeWhile (\<lambda>m. \<not> stops_fallback (send \<lparr>model = m, messages = msgs\<rparr>)) ms
        @ take 1 (dropWhile (\<lambda>m. \<not> stops_fallback (send \<lparr>model = m, messages = msgs\<rparr>)) ms))"
proof (induction ms arbitrary: lr)
  case Nil
  then show ?case by simp
next
  case (Cons m rest)
  show ?case
  proof (cases "stops_fallback (send \<lparr>model = m, messages = msgs\<rparr>)")
    case True
    then show ?thesis by (simp add: try_models_stop del: try_models.simps)
  next
    case False
    then obtain r where r: "send \<lparr>model = m, messages = msgs\<rparr> = Inr r"
      by (cases "send \<lparr>model = m, messages = msgs\<rparr>") (auto simp: stops_fallback_def)
    with False have "\<not> stops_fallback (Inr r)" by simp
    with r have "snd (try_models send msgs (m # rest) lr)
         = CompletionCall m # snd (try_models send msgs rest (Some r))"
      by (rule try_models_go)
    with False Cons.IH [of "Some r"] show ?thesis by simp
  qed
qed

text \<open>
  Claim C1, amended. With an API key configured, \<open>_query_grok\<close> posts the request for the
  model identifiers of \<open>model_names\<close> strictly in order and stops at the first request
  that ends in an exception (connection failure, timeout or any other), in a 200
  response, or in a 400 response that is not a model-not-available response; a
  response with any other status does not stop the loop, and the next model is tried.
  The statement is made for services that answer neither 401 nor 404.
\<close>

theorem query_grok_fallback_order:
  assumes "grok_api_key s \<noteq> []" and "grok_api_key s \<noteq> ''your-grok-api-key-here''"
    and "\<forall>m\<in>set model_names. \<forall>r.
           send \<lparr>model = m, messages = build_messages user_input context\<rparr> = Inr r
             \<longrightarrow> status_code r \<noteq> 401 \<and> status_code r \<noteq> 404"
  shows "snd (snd (query_grok send user_input context s)) =
     map CompletionCall
       (takeWhile (\<lambda>m. \<not> stops_fallback
                      (send \<lparr>model = m, messages = build_messages user_input context\<rparr>))
          model_names
        @ take 1 (dropWhile (\<lambda>m. \<not> stops_fallback
                      (send \<lparr>model = m, messages = build_messages user_input context\<rparr>))
                    model_names))"
proof -
  obtain ex calls where t: "try_models send (build_messages user_input context) model_names None
      = (ex, calls)"
    by (cases "try_models send (build_messages user_input context) model_names None") auto
  have "snd (snd (query_grok send user_input context s)) = calls"
    using assms(1,2) t
    by (auto simp: query_grok_def split: loop_exit.splits option.splits)
  moreover have "calls = snd (try_models send (build_messages user_input context) model_names None)"
    using t by simp
  ultimately show ?thesis
    by (simp only: try_models_attempts)
qed

theorem query_grok_fallback_order_witness:
  "snd (snd (query_grok flaky_post ''hi'' None default_controller))
     = [CompletionCall ''grok-3'', CompletionCall ''grok-beta'']"
proof -
  have k1: "grok_api_key default_controller \<noteq> []" by code_simp
  have k2: "grok_api_key default_controller \<noteq> ''your-grok-api-key-here''" by code_simp
  have st: "\<forall>m\<in>set model_names. \<forall>r.
           flaky_post \<lparr>model = m, messages = build_messages ''hi'' None\<rparr> = Inr r
             \<longrightarrow> status_code r \<noteq> 401 \<and> status_code r \<noteq> 404"
    by (auto simp: flaky_post_def unavailable_def greeting_def)
  have "map CompletionCall
       (takeWhile (\<lambda>m. \<not> stops_fallback
                      (flaky_post \<lparr>model = m, messages = build_messages ''hi'' None\<rparr>))
          model_names
        @ take 1 (dropWhile (\<lambda>m. \<not> stops_fallback
                      (flaky_post \<lparr>model = m, messages = build_messages ''hi'' None\<rparr>))
                    model_names))
      = [CompletionCall ''grok-3'', CompletionCall ''grok-beta'']"
    by code_simp
  with query_grok_fallback_order [OF k1 k2 st] show ?thesis by simp
qed

text \<open>
  Claim C1 as stated says that any 4xx or 5xx response other than model-not-available
  stops the fallback at once. A 503 for the first model does not: the second model is
  tried, and its reply is returned.
\<close>

theorem query_grok_continues_after_503:
  "flaky_post \<lparr>model = ''grok-3'', messages = build_messages ''hi'' None\<rparr> = Inr unavailable
   \<and> status_code unavailable = 503
   \<and> query_grok flaky_post ''hi'' None default_controller
       = (''Hello!'', default_controller,
          [CompletionCall ''grok-3'', CompletionCall ''grok-beta''])"
  by code_simp

section \<open>The player stops when it is interrupted\<close>








lemma poll_say_rising:
  "poll_say polls s = (ex, s1) \<Longrightarrow> interrupt_speech s \<Longrightarrow> interrupt_speech s1"
  by (induction polls arbitrary: s)
     (auto simp: Let_def hear_keeps_flag split: if_splits prod.splits)

lemma wait_generated_rising:
  "interrupt_speech s \<Longrightarrow> interrupt_speech (wait_generated waits s)"
  by (induction waits arbitrary: s) (auto simp: Let_def hear_keeps_flag)
















section \<open>The interrupt flag is set once\<close>












section \<open>\<open>get_violations\<close> returns a copy\<close>

lemma mutate_length: "length (mutate c lop h) = length h"
  by (simp add: mutate_def split: option.splits)

lemma mutate_other: "r \<noteq> c \<Longrightarrow> mutate c lop h ! r = h ! r"
  by (simp add: mutate_def split: option.splits)

lemma mutate_dict: "dict_at (mutate c lop h) r = dict_at h r"
  by (cases "r = c")
     (auto simp: mutate_def dict_at_def list_at_def split: option.splits pyobj.splits if_splits)

lemma fold_mutate_length: "length (fold (mutate c) ops h) = length h"
  by (induction ops arbitrary: h) (simp_all add: mutate_length)

lemma fold_mutate_other: "r \<noteq> c \<Longrightarrow> fold (mutate c) ops h ! r = h ! r"
  by (induction ops arbitrary: h) (simp_all add: mutate_other)

lemma fold_mutate_dict: "dict_at (fold (mutate c) ops h) r = dict_at h r"
  by (induction ops arbitrary: h) (simp_all add: mutate_dict)

lemma fold_mutate_list_other:
  "r \<noteq> c \<Longrightarrow> list_at (fold (mutate c) ops h) r = list_at h r"
  by (simp add: list_at_def fold_mutate_length fold_mutate_other)

text \<open>
  Claim C10. When \<open>self.violations\<close> names a list in the store, \<open>get_violations\<close> returns
  the address of a list object that is not the log and holds the same elements; the
  call changes no object that was in the store, so the log is what it was. Whatever
  list operations the caller then applies to the returned list, the log still holds the
  same elements with the same contents, and so does the result of a later call of
  \<open>get_violations\<close>.
\<close>

theorem get_violations_copy:
  assumes "list_at h log = Some xs"
  shows "\<exists>c h1. get_violations log h = Some (c, h1)
           \<and> list_at h1 log = Some xs
           \<and> (\<forall>r. r < length h \<longrightarrow> h1 ! r = h ! r)
           \<and> c \<noteq> log \<and> list_at h1 c = Some xs
           \<and> (\<forall>ops. list_at (fold (mutate c) ops h1) log = Some xs
                  \<and> map (dict_at (fold (mutate c) ops h1)) xs = map (dict_at h) xs
                  \<and> (\<exists>c' h3. get_violations log (fold (mutate c) ops h1) = Some (c', h3)
                         \<and> list_at h3 c' = Some xs
                         \<and> map (dict_at h3) xs = map (dict_at h) xs))"
proof -
  let ?c = "length h"
  let ?h1 = "h @ [PyList xs]"
  from assms have lt: "log < length h"
    by (simp add: list_at_def split: if_splits)
  then have ne: "?c \<noteq> log" by simp
  have g: "get_violations log h = Some (?c, ?h1)"
    using assms by (simp add: get_violations_def)
  have l1: "list_at ?h1 log = Some xs"
    using assms lt by (simp add: list_at_def nth_append)
  have same: "\<forall>r. r < length h \<longrightarrow> ?h1 ! r = h ! r"
    by (simp add: nth_append)
  have lc: "list_at ?h1 ?c = Some xs"
    by (simp add: list_at_def)
  have d1: "dict_at ?h1 r = dict_at h r" for r
    by (auto simp: dict_at_def nth_append)
  have after: "list_at (fold (mutate ?c) ops ?h1) log = Some xs
        \<and> map (dict_at (fold (mutate ?c) ops ?h1)) xs = map (dict_at h) xs
        \<and> (\<exists>c' h3. get_violations log (fold (mutate ?c) ops ?h1) = Some (c', h3)
              \<and> list_at h3 c' = Some xs
              \<and> map (dict_at h3) xs = map (dict_at h) xs)" for ops
  proof -
    let ?h2 = "fold (mutate ?c) ops ?h1"
    have l2: "list_at ?h2 log = Some xs"
      using l1 ne by (simp add: fold_mutate_list_other)
    have d2: "dict_at ?h2 r = dict_at h r" for r
      by (simp add: fold_mutate_dict d1)
    have g2: "get_violations log ?h2 = Some (length ?h2, ?h2 @ [PyList xs])"
      using l2 by (simp add: get_violations_def)
    have l3: "list_at (?h2 @ [PyList xs]) (length ?h2) = Some xs"
      by (simp add: list_at_def)
    have d3: "dict_at (?h2 @ [PyList xs]) r = dict_at h r" for r
      using d2 [of r] by (auto simp: dict_at_def nth_append)
    from l2 d2 g2 l3 d3 show ?thesis by simp
  qed
  from g l1 same ne lc after show ?thesis by blast
qed

theorem get_violations_copy_witness:
  "list_at two_violations 0 = Some [1, 2]
   \<and> get_violations 0 two_violations = Some (3, two_violations @ [PyList [1, 2]])
   \<and> list_at (fold (mutate 3) [Pop, SetItem 0 2, Clear, Append 0]
                (two_violations @ [PyList [1, 2]])) 3 = Some [0]
   \<and> list_at (fold (mutate 3) [Pop, SetItem 0 2, Clear, Append 0]
                (two_violations @ [PyList [1, 2]])) 0 = Some [1, 2]"
proof -
  have l: "list_at two_violations 0 = Some [1, 2]"
    by code_simp
  have g: "get_violations 0 two_violations = Some (3, two_violations @ [PyList [1, 2]])"
    by code_simp
  have m: "list_at (fold (mutate 3) [Pop, SetItem 0 2, Clear, Append 0]
                (two_violations @ [PyList [1, 2]])) 3 = Some [0]"
    by code_simp
  from get_violations_copy [OF l] obtain c h1
    where a: "get_violations 0 two_violations = Some (c, h1)"
      and b: "\<forall>ops. list_at (fold (mutate c) ops h1) 0 = Some [1, 2]"
    by blast
  from a g have "c = 3" and "h1 = two_violations @ [PyList [1, 2]]"
    by simp_all
  with b
  have "list_at (fold (mutate 3) [Pop, SetItem 0 2, Clear, Append 0]
                (two_violations @ [PyList [1, 2]])) 0 = Some [1, 2]"
    by blast
  with l g m show ?thesis by simp
qed

end
